theory Spec2Isabelle
  imports Complex_Main "HOL-Library.Word"
begin

unbundle bit_operations_syntax

section \<open>Text\<close>

text \<open>
  A JavaScript string is modelled as the list of its code points. The three string
  operations of the decoder (\<^verbatim>\<open>indexOf("\n\n")\<close>, \<^verbatim>\<open>trim\<close>, \<^verbatim>\<open>startsWith("data:")\<close>)
  only look at characters of the Basic Multilingual Plane, where code points and
  UTF-16 code units coincide.
\<close>

type_synonym jstring = "nat list"

type_synonym byte = "8 word"

definition ascii :: "string \<Rightarrow> jstring" where
  "ascii s = map of_char s"

text \<open>A thrown JavaScript \<^verbatim>\<open>Error\<close>; the program only ever reads its \<^verbatim>\<open>message\<close>.\<close>

datatype error = Error (message: jstring)

definition LF :: nat where
  "LF = 10"

text \<open>
  \<^verbatim>\<open>buffer.indexOf("\n\n")\<close>: the least index at which two consecutive line feeds
  start; \<open>None\<close> stands for the result \<^verbatim>\<open>-1\<close>.
\<close>

fun indexOf_nn :: "jstring \<Rightarrow> nat option" where
  "indexOf_nn (x # y # zs) =
     (if x = LF \<and> y = LF then Some 0 else map_option Suc (indexOf_nn (y # zs)))"
| "indexOf_nn _ = None"

text \<open>
  The characters \<^verbatim>\<open>String.prototype.trim\<close> removes: ECMAScript WhiteSpace and
  LineTerminator.
\<close>

definition is_ws :: "nat \<Rightarrow> bool" where
  "is_ws c \<longleftrightarrow>
     c = 0x09 \<or> c = 0x0A \<or> c = 0x0B \<or> c = 0x0C \<or> c = 0x0D \<or> c = 0x20 \<or> c = 0xA0
     \<or> c = 0x1680 \<or> (0x2000 \<le> c \<and> c \<le> 0x200A) \<or> c = 0x2028 \<or> c = 0x2029
     \<or> c = 0x202F \<or> c = 0x205F \<or> c = 0x3000 \<or> c = 0xFEFF"

definition trim :: "jstring \<Rightarrow> jstring" where
  "trim s = rev (dropWhile is_ws (rev (dropWhile is_ws s)))"

definition data_prefix :: jstring where
  "data_prefix = [0x64, 0x61, 0x74, 0x61, 0x3A]"

definition startsWith :: "jstring \<Rightarrow> jstring \<Rightarrow> bool" where
  "startsWith s p \<longleftrightarrow> take (length p) s = p"

text \<open>\<^verbatim>\<open>chunk.replace(/^data:/, "")\<close>: removes the prefix when the string starts with it.\<close>

definition replace_data :: "jstring \<Rightarrow> jstring" where
  "replace_data s = (if startsWith s data_prefix then drop (length data_prefix) s else s)"

text \<open>Decimal rendering of a number inside a template literal.\<close>

fun decimal :: "nat \<Rightarrow> jstring" where
  "decimal n = (if n < 10 then [0x30 + n] else decimal (n div 10) @ [0x30 + n mod 10])"

declare decimal.simps [simp del]


section \<open>The platform's streaming UTF-8 decoder\<close>

text \<open>
  \<^verbatim>\<open>new TextDecoder()\<close> with \<^verbatim>\<open>decode(value, { stream: true })\<close> is an object of the
  platform, not of the repository. It is modelled after the UTF-8 decoder of the
  WHATWG Encoding standard: a state machine fed one byte at a time whose state
  survives between calls, which emits U+FFFD for a malformed sequence and drops one
  leading byte order mark. The program never flushes it, so an incomplete sequence at
  the end of the stream emits nothing.
\<close>

record utf8_state =
  code_point :: nat
  bytes_seen :: nat
  bytes_needed :: nat
  lower_boundary :: byte
  upper_boundary :: byte

definition utf8_init :: utf8_state where
  "utf8_init = \<lparr>code_point = 0, bytes_seen = 0, bytes_needed = 0,
                lower_boundary = 0x80, upper_boundary = 0xBF\<rparr>"

definition utf8_lead :: "byte \<Rightarrow> utf8_state \<times> jstring" where
  "utf8_lead b =
     (if b \<le> 0x7F then (utf8_init, [unat b])
      else if 0xC2 \<le> b \<and> b \<le> 0xDF then
        (utf8_init\<lparr>bytes_needed := 1, code_point := unat (b AND 0x1F)\<rparr>, [])
      else if 0xE0 \<le> b \<and> b \<le> 0xEF then
        (utf8_init\<lparr>lower_boundary := (if b = 0xE0 then 0xA0 else 0x80),
                   upper_boundary := (if b = 0xED then 0x9F else 0xBF),
                   bytes_needed := 2, code_point := unat (b AND 0x0F)\<rparr>, [])
      else if 0xF0 \<le> b \<and> b \<le> 0xF4 then
        (utf8_init\<lparr>lower_boundary := (if b = 0xF0 then 0x90 else 0x80),
                   upper_boundary := (if b = 0xF4 then 0x8F else 0xBF),
                   bytes_needed := 3, code_point := unat (b AND 0x07)\<rparr>, [])
      else (utf8_init, [0xFFFD]))"

definition utf8_handler :: "utf8_state \<Rightarrow> byte \<Rightarrow> utf8_state \<times> jstring" where
  "utf8_handler u b =
     (if bytes_needed u = 0 then utf8_lead b
      else if \<not> (lower_boundary u \<le> b \<and> b \<le> upper_boundary u) then
        (case utf8_lead b of (u', out) \<Rightarrow> (u', 0xFFFD # out))
      else
        (let cp = code_point u * 64 + unat (b AND 0x3F) in
         if bytes_seen u + 1 \<noteq> bytes_needed u then
           (u\<lparr>lower_boundary := 0x80, upper_boundary := 0xBF, code_point := cp,
              bytes_seen := bytes_seen u + 1\<rparr>, [])
         else (utf8_init, [cp])))"

fun utf8_run :: "utf8_state \<Rightarrow> byte list \<Rightarrow> utf8_state \<times> jstring" where
  "utf8_run u [] = (u, [])"
| "utf8_run u (b # bs) =
     (case utf8_handler u b of (u', out) \<Rightarrow>
        (case utf8_run u' bs of (u'', out') \<Rightarrow> (u'', out @ out')))"

record decoder =
  utf8 :: utf8_state
  bom_seen :: bool

definition new_TextDecoder :: decoder where
  "new_TextDecoder = \<lparr>utf8 = utf8_init, bom_seen = False\<rparr>"

definition decode :: "decoder \<Rightarrow> byte list \<Rightarrow> decoder \<times> jstring" where
  "decode d v =
     (case utf8_run (utf8 d) v of (u, out) \<Rightarrow>
        if bom_seen d \<or> out = [] then (d\<lparr>utf8 := u\<rparr>, out)
        else (d\<lparr>utf8 := u, bom_seen := True\<rparr>, if hd out = 0xFEFF then tl out else out))"


section \<open>The frame decoder: \<^verbatim>\<open>analyzeStream\<close>\<close>

text \<open>
  \<^verbatim>\<open>JSON.parse\<close> is a parameter \<open>parse\<close>: \<open>Inl e\<close> is the thrown SyntaxError. The
  callback \<open>onEvent\<close> is a state transformer; whatever it did before an exception stays
  done, so every result carries the state reached.
\<close>

text \<open>
  The inner loop \<^verbatim>\<open>while ((idx = buffer.indexOf("\n\n")) >= 0)\<close>. It returns the state
  after the callbacks together with either the exception thrown by \<open>parse\<close> or the
  buffer that remains.
\<close>

function drain :: "(jstring \<Rightarrow> error + 'e) \<Rightarrow> ('e \<Rightarrow> 's \<Rightarrow> 's) \<Rightarrow> jstring \<Rightarrow> 's \<Rightarrow> 's \<times> (error + jstring)" where
  "drain parse onEvent buffer st =
     (case indexOf_nn buffer of
        None \<Rightarrow> (st, Inr buffer)
      | Some idx \<Rightarrow>
          if startsWith (trim (take idx buffer)) data_prefix then
            if trim (replace_data (trim (take idx buffer))) \<noteq> [] then
              (case parse (trim (replace_data (trim (take idx buffer)))) of
                 Inl e \<Rightarrow> (st, Inl e)
               | Inr ev \<Rightarrow> drain parse onEvent (drop (idx + 2) buffer) (onEvent ev st))
            else drain parse onEvent (drop (idx + 2) buffer) st
          else drain parse onEvent (drop (idx + 2) buffer) st)"
  by pat_completeness auto
termination
proof -
  have bound: "i + 2 \<le> length s" if "indexOf_nn s = Some i" for s i
    using that by (induction s arbitrary: i rule: indexOf_nn.induct) (auto split: if_splits)
  show ?thesis
    by (relation "measure (\<lambda>(parse, onEvent, buffer, st). length buffer)")
       (auto dest: bound)
qed

declare drain.simps [simp del]

text \<open>
  What \<^verbatim>\<open>reader.read()\<close> settles to: a chunk of bytes, or a rejection. The end of the
  list of reads is \<^verbatim>\<open>done\<close>.
\<close>

datatype read = Value "byte list" | Rejected error

fun read_loop :: "(jstring \<Rightarrow> error + 'e) \<Rightarrow> ('e \<Rightarrow> 's \<Rightarrow> 's) \<Rightarrow> read list \<Rightarrow> decoder \<Rightarrow> jstring \<Rightarrow> 's
    \<Rightarrow> 's \<times> error option" where
  "read_loop parse onEvent [] d buffer st = (st, None)"
| "read_loop parse onEvent (Rejected e # rs) d buffer st = (st, Some e)"
| "read_loop parse onEvent (Value v # rs) d buffer st =
     (case decode d v of (d', decoded) \<Rightarrow>
        (case drain parse onEvent (buffer @ decoded) st of
           (st', Inl e) \<Rightarrow> (st', Some e)
         | (st', Inr buffer') \<Rightarrow> read_loop parse onEvent rs d' buffer' st'))"

text \<open>What \<^verbatim>\<open>fetch\<close> settles to; \<open>body = None\<close> is a response without a readable body.\<close>

datatype response = FetchRejected error | Response (ok: bool) (http_status: nat) (body: "read list option")

definition start_error :: "nat \<Rightarrow> error" where
  "start_error code =
     Error (ascii ''Analyse konnte nicht gestartet werden ('' @ decimal code @ ascii '')'')"

definition no_stream_error :: error where
  "no_stream_error = Error (ascii ''Keine Stream-Verbindung verf'' @ [0xFC] @ ascii ''gbar'')"

text \<open>
  \<^verbatim>\<open>analyzeStream(payload, onEvent, signal)\<close>. The result is the state after the
  callbacks and how the promise settles: \<open>None\<close> resolved, \<open>Some e\<close> rejected with \<open>e\<close>.
\<close>

definition analyzeStream :: "(jstring \<Rightarrow> error + 'e) \<Rightarrow> ('e \<Rightarrow> 's \<Rightarrow> 's) \<Rightarrow> response \<Rightarrow> 's \<Rightarrow> 's \<times> error option" where
  "analyzeStream parse onEvent resp st =
     (case resp of
        FetchRejected e \<Rightarrow> (st, Some e)
      | Response is_ok code rd \<Rightarrow>
          if \<not> is_ok then (st, Some (start_error code))
          else (case rd of
                  None \<Rightarrow> (st, Some no_stream_error)
                | Some reads \<Rightarrow> read_loop parse onEvent reads new_TextDecoder [] st))"


section \<open>The lifecycle controller: \<^verbatim>\<open>App\<close>\<close>

record AnalyzePoint =
  idx :: int
  point_value :: real
  label :: jstring
  timeIso :: jstring
  localPathId :: jstring

datatype FtpStatus = ftp_ok | ftp_error

record AnalyzeResponse =
  points :: "AnalyzePoint list"
  mean :: "real option"
  totalFiles :: nat
  machineRuntimePercent :: real
  ftpStatus :: FtpStatus
  latestFileName :: "jstring option"

text \<open>
  \<^verbatim>\<open>ProgressEvent\<close>: every field is optional, \<open>None\<close> is \<^verbatim>\<open>undefined\<close>. The fields carry
  the prefix \<open>ev_\<close> because the component's state has fields of the same names.
\<close>

record ProgressEvent =
  ev_progress :: "real option"
  ev_stage :: "jstring option"
  ev_result :: "AnalyzeResponse option"
  ev_error :: "jstring option"
  ev_status :: "nat option"

datatype StatusLevel = INFO | WARN | ERROR | OK

datatype AnalysisMode = date | last_x

text \<open>
  The state of the \<^verbatim>\<open>App\<close> component that \<^verbatim>\<open>handleAnalyze\<close>, \<^verbatim>\<open>handleCancel\<close> and the
  stream callbacks read or write. The status line is kept without its timestamp.
  \<open>controllers\<close> is the store of the \<^verbatim>\<open>AbortController\<close> objects created so far, each
  reduced to \<^verbatim>\<open>signal.aborted\<close>; \<open>controllerRef\<close> is \<^verbatim>\<open>controllerRef.current\<close>, an index
  into that store.
\<close>

record App =
  keyword :: jstring
  analysisMode :: AnalysisMode
  startDate :: jstring
  endDate :: jstring
  result :: "AnalyzeResponse option"
  running :: bool
  progress :: real
  status :: "StatusLevel \<times> jstring"
  selectedFile :: "(jstring \<times> jstring) option"
  controllers :: "bool list"
  controllerRef :: "nat option"

definition showStatus :: "StatusLevel \<Rightarrow> jstring \<Rightarrow> App \<Rightarrow> App" where
  "showStatus lvl msg s = s\<lparr>status := (lvl, msg)\<rparr>"

text \<open>\<^verbatim>\<open>controller.signal.aborted\<close> of the controller stored at index \<open>i\<close>.\<close>

definition aborted :: "App \<Rightarrow> nat \<Rightarrow> bool" where
  "aborted s i \<longleftrightarrow> i < length (controllers s) \<and> controllers s ! i"

text \<open>\<^verbatim>\<open>controllerRef.current?.abort()\<close>\<close>

definition abort_current :: "App \<Rightarrow> App" where
  "abort_current s =
     (case controllerRef s of
        None \<Rightarrow> s
      | Some i \<Rightarrow> s\<lparr>controllers := (controllers s)[i := True]\<rparr>)"

definition msg_keyword_missing :: jstring where
  "msg_keyword_missing = ascii ''Bitte Messwert eingeben''"

definition msg_dates_missing :: jstring where
  "msg_dates_missing = ascii ''Start- und Enddatum erforderlich''"

definition msg_running :: jstring where
  "msg_running = ascii ''ANALYSE L'' @ [0xC4] @ ascii ''UFT'' @ [0x2026]"

definition msg_done :: jstring where
  "msg_done = ascii ''FERTIG''"

definition msg_cancelled :: jstring where
  "msg_cancelled = ascii ''Analyse abgebrochen''"

text \<open>
  \<^verbatim>\<open>handleAnalyze\<close> up to the call of \<^verbatim>\<open>analyzeStream\<close>. The second component is the
  index of the controller created for the new request, \<open>None\<close> when validation
  returned early. The callbacks of the request run later, as \<open>onEvent\<close> and
  \<open>catch_handler\<close> below.
\<close>

definition handleAnalyze :: "App \<Rightarrow> App \<times> nat option" where
  "handleAnalyze s =
     (if trim (keyword s) = [] then (showStatus WARN msg_keyword_missing s, None)
      else if analysisMode s = date \<and> (startDate s = [] \<or> endDate s = []) then
        (showStatus WARN msg_dates_missing s, None)
      else
        (let s1 = abort_current s;
             i = length (controllers s1);
             s2 = s1\<lparr>controllers := controllers s1 @ [False], controllerRef := Some i\<rparr>;
             s3 = s2\<lparr>running := True\<rparr>;
             s4 = s3\<lparr>progress := 0\<rparr>;
             s5 = showStatus INFO msg_running s4;
             s6 = s5\<lparr>selectedFile := None\<rparr>
         in (s6, Some i)))"

text \<open>The callback passed to \<^verbatim>\<open>analyzeStream\<close>: three independent \<^verbatim>\<open>if\<close> statements.\<close>

definition onEvent :: "ProgressEvent \<Rightarrow> App \<Rightarrow> App" where
  "onEvent event s =
     (let s1 = (case ev_progress event of
                  Some p \<Rightarrow> s\<lparr>progress := p\<rparr>
                | None \<Rightarrow> s);
          s2 = (case ev_error event of
                  Some e \<Rightarrow> if e \<noteq> [] then (showStatus ERROR e s1)\<lparr>running := False\<rparr> else s1
                | None \<Rightarrow> s1);
          s3 = (case ev_result event of
                  Some r \<Rightarrow>
                    (showStatus OK msg_done (s2\<lparr>result := Some r\<rparr>))\<lparr>running := False, progress := 1\<rparr>
                | None \<Rightarrow> s2)
      in s3)"

text \<open>
  The \<^verbatim>\<open>.catch\<close> handler of the request whose controller is stored at index \<open>i\<close>,
  called with the error the promise was rejected with.
\<close>

definition catch_handler :: "nat \<Rightarrow> error \<Rightarrow> App \<Rightarrow> App" where
  "catch_handler i err s =
     (if aborted s i then showStatus WARN msg_cancelled s
      else showStatus ERROR (message err) s)\<lparr>running := False\<rparr>"

definition handleCancel :: "App \<Rightarrow> App" where
  "handleCancel s = abort_current s"

text \<open>
  A request whose stream is delivered without anything else happening in between:
  the events go to \<open>onEvent\<close>, a rejection goes to the \<^verbatim>\<open>.catch\<close> handler.
\<close>

definition run_request :: "(jstring \<Rightarrow> error + ProgressEvent) \<Rightarrow> response \<Rightarrow> nat \<Rightarrow> App \<Rightarrow> App" where
  "run_request parse resp i s =
     (case analyzeStream parse onEvent resp s of
        (s', None) \<Rightarrow> s'
      | (s', Some e) \<Rightarrow> catch_handler i e s')"

text \<open>
  What can happen to the component while one request is in flight: the user cancels,
  or the stream delivers an event.
\<close>

datatype action = Cancel | Deliver ProgressEvent

fun apply_action :: "App \<Rightarrow> action \<Rightarrow> App" where
  "apply_action s Cancel = handleCancel s"
| "apply_action s (Deliver event) = onEvent event s"

text \<open>The initial state of the component (the arguments of its \<^verbatim>\<open>useState\<close> calls).\<close>

definition App_init :: App where
  "App_init = \<lparr>keyword = ascii ''Durchmesser 1'', analysisMode = last_x,
     startDate = ascii ''01-09-25'', endDate = ascii ''30-09-25'', result = None,
     running = False, progress = 0, status = (INFO, ascii ''Bereit''),
     selectedFile = None, controllers = [], controllerRef = None\<rparr>"


section \<open>The rendering policy: \<^verbatim>\<open>ChartPanel\<close>\<close>

definition showTooltips :: "bool \<Rightarrow> 'p list \<Rightarrow> real \<Rightarrow> bool" where
  "showTooltips tooltipEnabled pts tooltipThreshold \<longleftrightarrow>
     tooltipEnabled \<and> real (length pts) \<le> tooltipThreshold"

text \<open>
  The \<^verbatim>\<open>tooltip\<close> entry of the chart option: the item tooltip or \<^verbatim>\<open>undefined\<close>.
\<close>

datatype tooltip = trigger_item

definition tooltip_option :: "bool \<Rightarrow> 'p list \<Rightarrow> real \<Rightarrow> tooltip option" where
  "tooltip_option tooltipEnabled pts tooltipThreshold =
     (if showTooltips tooltipEnabled pts tooltipThreshold then Some trigger_item else None)"





section \<open>Notions of the specification\<close>

text \<open>A frame of the wire protocol: \<^verbatim>\<open>data:<json>\n\n\<close>.\<close>

definition frame :: "jstring \<Rightarrow> jstring" where
  "frame payload = data_prefix @ payload @ [LF, LF]"

text \<open>
  The payload of a well-formed frame, as a JSON serialiser writes it: not empty, no
  white space around it, no blank line inside.
\<close>

definition payload_ok :: "jstring \<Rightarrow> bool" where
  "payload_ok p \<longleftrightarrow> p \<noteq> [] \<and> \<not> is_ws (hd p) \<and> \<not> is_ws (last p) \<and> indexOf_nn p = None"


text \<open>The specification's \<open>tooltipsEnabled = tooltipsWanted AND (N <= tooltipThreshold)\<close>.\<close>

definition tooltipsEnabled :: "bool \<Rightarrow> nat \<Rightarrow> real \<Rightarrow> bool" where
  "tooltipsEnabled tooltipsWanted N tooltipThreshold \<longleftrightarrow>
     tooltipsWanted \<and> real N \<le> tooltipThreshold"



text \<open>The specification's clamping of a progress value to the interval from 0 to 1.\<close>

definition clamp01 :: "real \<Rightarrow> real" where
  "clamp01 x = max 0 (min 1 x)"


section \<open>Concrete inputs\<close>

text \<open>A callback that records the events it is called with, in order.\<close>

definition record_event :: "'e \<Rightarrow> 'e list \<Rightarrow> 'e list" where
  "record_event ev seen = seen @ [ev]"

text \<open>The event \<^verbatim>\<open>{}\<close>, and a result payload without points.\<close>

definition no_fields :: ProgressEvent where
  "no_fields = \<lparr>ev_progress = None, ev_stage = None, ev_result = None, ev_error = None,
     ev_status = None\<rparr>"

definition empty_result :: AnalyzeResponse where
  "empty_result = \<lparr>points = [], mean = None, totalFiles = 0, machineRuntimePercent = 0,
     ftpStatus = ftp_ok, latestFileName = None\<rparr>"

text \<open>
  The values of \<^verbatim>\<open>JSON.parse\<close> on the few texts the concrete inputs below use; on every
  other text of this table's domain, among them the empty text, it throws.
\<close>

definition syntax_error :: error where
  "syntax_error = Error (ascii ''Unexpected token'')"

definition json_progress :: jstring where
  \<open>json_progress = ascii ''{"progress":0.25}''\<close>

definition json_result :: jstring where
  \<open>json_result = ascii ''{"result":{"points":[],"mean":null,"totalFiles":0,"machineRuntimePercent":0,"ftpStatus":"ok"}}''\<close>

definition json_garbage :: jstring where
  \<open>json_garbage = ascii ''{"progress":''\<close>

definition parse_table :: "jstring \<Rightarrow> error + ProgressEvent" where
  "parse_table t =
     (if t = json_progress then Inr (no_fields\<lparr>ev_progress := Some (1 / 4)\<rparr>)
      else if t = json_result then Inr (no_fields\<lparr>ev_result := Some empty_result\<rparr>)
      else Inl syntax_error)"

text \<open>The bytes of an ASCII text.\<close>

definition bytes :: "jstring \<Rightarrow> byte list" where
  "bytes t = map of_nat t"

text \<open>The error a pending read is rejected with when its request is aborted.\<close>

definition abort_error :: error where
  "abort_error = Error (ascii ''The user aborted a request.'')"


section \<open>The decoder does not depend on how the bytes are cut\<close>

lemma utf8_run_append:
  "utf8_run u (a @ b) =
     (case utf8_run u a of (u1, o1) \<Rightarrow> (case utf8_run u1 b of (u2, o2) \<Rightarrow> (u2, o1 @ o2)))"
  by (induction a arbitrary: u) (auto split: prod.splits)

lemma decode_append:
  "decode d (a @ b) =
     (case decode d a of (d1, t1) \<Rightarrow> (case decode d1 b of (d2, t2) \<Rightarrow> (d2, t1 @ t2)))"
  by (auto simp: decode_def utf8_run_append split: prod.splits)

lemma decode_Nil: "decode d [] = (d, [])"
  by (simp add: decode_def)

lemma indexOf_nn_bound: "indexOf_nn s = Some i \<Longrightarrow> i + 2 \<le> length s"
  by (induction s arbitrary: i rule: indexOf_nn.induct) (auto split: if_splits)

lemma indexOf_nn_append: "indexOf_nn b = Some i \<Longrightarrow> indexOf_nn (b @ t) = Some i"
  by (induction b arbitrary: i rule: indexOf_nn.induct) (auto split: if_splits)

lemma drain_None: "indexOf_nn b = None \<Longrightarrow> drain parse cb b st = (st, Inr b)"
  by (simp add: drain.simps)

lemma drain_unfold:
  "indexOf_nn buffer = Some pos \<Longrightarrow>
   drain parse cb buffer st =
     (if startsWith (trim (take pos buffer)) data_prefix
         \<and> trim (replace_data (trim (take pos buffer))) \<noteq> [] then
        (case parse (trim (replace_data (trim (take pos buffer)))) of
           Inl e \<Rightarrow> (st, Inl e)
         | Inr ev \<Rightarrow> drain parse cb (drop (pos + 2) buffer) (cb ev st))
      else drain parse cb (drop (pos + 2) buffer) st)"
  by (subst drain.simps) simp

lemma drain_append:
  "drain parse cb (b @ t) st =
     (case drain parse cb b st of
        (st', Inl e) \<Rightarrow> (st', Inl e)
      | (st', Inr r) \<Rightarrow> drain parse cb (r @ t) st')"
proof (induction parse cb b st rule: drain.induct)
  case (1 parse cb buffer st)
  show ?case
  proof (cases "indexOf_nn buffer")
    case None
    then show ?thesis by (simp add: drain_None)
  next
    case (Some pos)
    then have len: "pos + 2 \<le> length buffer" by (rule indexOf_nn_bound)
    have app: "indexOf_nn (buffer @ t) = Some pos" using Some by (rule indexOf_nn_append)
    have tk: "take pos (buffer @ t) = take pos buffer" using len by simp
    have dr: "drop (pos + 2) (buffer @ t) = drop (pos + 2) buffer @ t" using len by simp
    let ?data = "trim (replace_data (trim (take pos buffer)))"
    note L = drain_unfold[OF app, of parse cb st, unfolded tk dr]
    note R = drain_unfold[OF Some, of parse cb st]
    show ?thesis
    proof (cases "startsWith (trim (take pos buffer)) data_prefix \<and> ?data \<noteq> []")
      case True
      show ?thesis
      proof (cases "parse ?data")
        case (Inl e)
        with True show ?thesis
          by (simp add: L R)
      next
        case (Inr ev)
        with True 1(1)[OF Some _ _ Inr] show ?thesis
          by (simp add: L R)
      qed
    next
      case False
      with 1(2)[OF Some] 1(3)[OF Some] show ?thesis
        by (auto simp add: L R)
    qed
  qed
qed

lemma drain_rest: "drain parse cb b st = (st', Inr r) \<Longrightarrow> indexOf_nn r = None"
proof (induction parse cb b st rule: drain.induct)
  case (1 parse cb buffer st)
  show ?case
  proof (cases "indexOf_nn buffer")
    case None
    with 1(4) show ?thesis by (simp add: drain_None)
  next
    case (Some pos)
    with 1 show ?thesis
      by (auto simp: drain_unfold[OF Some] split: sum.splits if_splits)
  qed
qed

lemma read_loop_concat:
  "indexOf_nn buf = None \<Longrightarrow>
   read_loop parse cb (map Value fs @ later) d buf st =
     (case decode d (concat fs) of (d', decoded) \<Rightarrow>
        (case drain parse cb (buf @ decoded) st of
           (st', Inl e) \<Rightarrow> (st', Some e)
         | (st', Inr r) \<Rightarrow> read_loop parse cb later d' r st'))"
proof (induction fs arbitrary: d buf st)
  case Nil
  then show ?case by (simp add: decode_Nil drain_None)
next
  case (Cons f fs)
  show ?case
    apply (simp add: decode_append split: prod.splits)
    apply (subst drain_append[of _ _ "buf @ _", simplified])
    apply (auto split: prod.splits sum.splits simp: Cons.IH drain_rest)
    done
qed

lemma indexOf_nn_delim:
  "indexOf_nn s = None \<Longrightarrow> s = [] \<or> last s \<noteq> LF \<Longrightarrow>
   indexOf_nn (s @ LF # LF # rest) = Some (length s)"
  by (induction s rule: indexOf_nn.induct) (auto split: if_splits)

lemma indexOf_nn_data: "indexOf_nn p = None \<Longrightarrow> indexOf_nn (data_prefix @ p) = None"
  by (cases p) (auto simp: data_prefix_def LF_def)

lemma dropWhile_hd: "s \<noteq> [] \<Longrightarrow> \<not> P (hd s) \<Longrightarrow> dropWhile P s = s"
  by (cases s) auto

lemma trim_id: "s \<noteq> [] \<Longrightarrow> \<not> is_ws (hd s) \<Longrightarrow> \<not> is_ws (last s) \<Longrightarrow> trim s = s"
  by (simp add: trim_def dropWhile_hd hd_rev)

lemma not_ws_LF: "\<not> is_ws c \<Longrightarrow> c \<noteq> LF"
  by (auto simp: is_ws_def LF_def)

lemma drain_frame:
  assumes "payload_ok p" "parse p = Inr ev"
  shows "drain parse cb (frame p @ rest) st = drain parse cb rest (cb ev st)"
proof -
  from assms(1) have p: "p \<noteq> []" "\<not> is_ws (hd p)" "\<not> is_ws (last p)" "indexOf_nn p = None"
    by (auto simp: payload_ok_def)
  have len: "length data_prefix = 5" by (simp add: data_prefix_def)
  have "indexOf_nn ((data_prefix @ p) @ LF # LF # rest) = Some (length (data_prefix @ p))"
    using p by (intro indexOf_nn_delim indexOf_nn_data) (auto dest: not_ws_LF)
  then have i: "indexOf_nn (frame p @ rest) = Some (5 + length p)"
    by (simp add: frame_def len)
  have tk: "take (5 + length p) (frame p @ rest) = data_prefix @ p"
    by (simp add: frame_def len)
  have dr: "drop (5 + length p + 2) (frame p @ rest) = rest"
    by (simp add: frame_def len)
  have t1: "trim (data_prefix @ p) = data_prefix @ p"
    using p by (intro trim_id) (auto simp: data_prefix_def is_ws_def)
  have sw: "startsWith (data_prefix @ p) data_prefix"
    by (simp add: startsWith_def)
  have rp: "replace_data (data_prefix @ p) = p"
    by (simp add: replace_data_def sw)
  have t2: "trim p = p" using p by (intro trim_id)
  show ?thesis
    using drain_unfold[OF i, of parse cb st] p(1) assms(2)
    by (simp only: tk dr t1 sw rp t2 if_True simp_thms sum.case)
qed

lemma drain_frames:
  "list_all2 (\<lambda>p ev. payload_ok p \<and> parse p = Inr ev) ps evs \<Longrightarrow>
   drain parse cb (concat (map frame ps) @ rest) st =
     drain parse cb rest (foldl (\<lambda>s ev. cb ev s) st evs)"
proof (induction ps evs arbitrary: st rule: list_all2_induct)
  case Nil
  then show ?case by simp
next
  case (Cons p ps ev evs)
  then show ?case by (simp add: drain_frame)
qed

lemma analyzeStream_frames:
  assumes "snd (decode new_TextDecoder (concat fragments)) = concat (map frame payloads) @ remainder"
    and "list_all2 (\<lambda>p ev. payload_ok p \<and> parse p = Inr ev) payloads events"
  shows "analyzeStream parse cb (Response True code (Some (map Value fragments @ later))) st =
           (case drain parse cb remainder (foldl (\<lambda>s ev. cb ev s) st events) of
              (st', Inl e) \<Rightarrow> (st', Some e)
            | (st', Inr r) \<Rightarrow>
                read_loop parse cb later (fst (decode new_TextDecoder (concat fragments))) r st')"
proof -
  obtain d decoded where d: "decode new_TextDecoder (concat fragments) = (d, decoded)"
    by (cases "decode new_TextDecoder (concat fragments)")
  with assms(1) have "decoded = concat (map frame payloads) @ remainder" by simp
  then have "drain parse cb decoded st =
      drain parse cb remainder (foldl (\<lambda>s ev. cb ev s) st events)"
    by (simp add: drain_frames[OF assms(2)])
  then show ?thesis
    by (auto simp add: analyzeStream_def read_loop_concat d split: prod.splits sum.splits)
qed

lemmas eval_defs = decode_def new_TextDecoder_def utf8_handler_def utf8_lead_def utf8_init_def
  frame_def data_prefix_def LF_def payload_ok_def is_ws_def record_event_def


section \<open>What the callbacks leave alone\<close>

lemma onEvent_controllers [simp]:
  "controllers (onEvent event s) = controllers s" "controllerRef (onEvent event s) = controllerRef s"
  by (auto simp: onEvent_def showStatus_def Let_def split: option.splits)

lemma foldl_onEvent_aborted [simp]:
  "aborted (foldl (\<lambda>s ev. onEvent ev s) s evs) i = aborted s i"
  by (induction evs arbitrary: s) (auto simp: aborted_def)

lemma handleAnalyze_started:
  assumes "handleAnalyze s0 = (s1, Some i)"
  shows "controllerRef s1 = Some i" "i < length (controllers s1)" "\<not> controllers s1 ! i"
  using assms
  by (auto simp: handleAnalyze_def Let_def showStatus_def abort_current_def nth_append
      split: if_splits option.splits)

lemma foldl_apply_action:
  assumes "controllerRef s = Some i" "i < length (controllers s)"
  shows "controllerRef (foldl apply_action s acts) = Some i
    \<and> length (controllers (foldl apply_action s acts)) = length (controllers s)
    \<and> (controllers (foldl apply_action s acts) ! i \<longleftrightarrow> controllers s ! i \<or> Cancel \<in> set acts)"
  using assms
proof (induction acts arbitrary: s)
  case Nil
  then show ?case by simp
next
  case (Cons a acts)
  show ?case
  proof (cases a)
    case Cancel
    have "controllerRef (handleCancel s) = Some i" "i < length (controllers (handleCancel s))"
      "controllers (handleCancel s) ! i" "length (controllers (handleCancel s)) = length (controllers s)"
      using Cons.prems by (simp_all add: handleCancel_def abort_current_def)
    with Cons.IH[of "handleCancel s"] Cancel show ?thesis by simp
  next
    case (Deliver event)
    with Cons.IH[of "onEvent event s"] Cons.prems show ?thesis by simp
  qed
qed


section \<open>Evaluating the concrete inputs\<close>

lemma utf8_run_ascii:
  "\<forall>c \<in> set t. c < 128 \<Longrightarrow> utf8_run utf8_init (bytes t) = (utf8_init, t)"
proof (induction t)
  case Nil
  then show ?case by (simp add: bytes_def)
next
  case (Cons c t)
  then have c: "c < 128" by simp
  then have "(of_nat c :: byte) \<le> 0x7F" "unat (of_nat c :: byte) = c"
    by (simp_all add: word_le_nat_alt unat_of_nat)
  then have "utf8_handler utf8_init (of_nat c) = (utf8_init, [c])"
    by (simp add: utf8_handler_def utf8_lead_def utf8_init_def)
  with Cons show ?case by (simp add: bytes_def)
qed

lemma decode_ascii:
  assumes "\<forall>c \<in> set t. c < 128"
  shows "snd (decode new_TextDecoder (bytes t)) = t"
proof (cases t)
  case Nil
  then show ?thesis by (simp add: decode_def bytes_def)
next
  case (Cons c cs)
  with assms have "c < 128" by simp
  then have "hd t \<noteq> 0xFEFF" using Cons by simp
  then show ?thesis
    using utf8_run_ascii[OF assms] Cons by (simp add: decode_def new_TextDecoder_def)
qed


lemma json_ascii:
  "\<forall>c \<in> set (frame json_progress). c < 128" "\<forall>c \<in> set (frame json_result). c < 128"
  "\<forall>c \<in> set (frame json_garbage). c < 128" "\<forall>c \<in> set (frame []). c < 128"
  by (simp_all add: frame_def json_progress_def json_result_def json_garbage_def ascii_def
      data_prefix_def LF_def)

lemma json_payload_ok: "payload_ok json_progress" "payload_ok json_result"
  by (simp_all add: payload_ok_def json_progress_def json_result_def ascii_def is_ws_def LF_def)

lemma parse_table_values:
  "parse_table json_progress = Inr (no_fields\<lparr>ev_progress := Some (1 / 4)\<rparr>)"
  "parse_table json_result = Inr (no_fields\<lparr>ev_result := Some empty_result\<rparr>)"
  "parse_table json_garbage = Inl syntax_error"
  "parse_table [] = Inl syntax_error"
  by (simp_all add: parse_table_def json_progress_def json_result_def json_garbage_def ascii_def)

lemma started: "handleAnalyze App_init = (fst (handleAnalyze App_init), Some 0)"
  by (simp add: handleAnalyze_def App_init_def ascii_def trim_def is_ws_def abort_current_def Let_def)


section \<open>Frame reassembly\<close>

text \<open>
  C4: Whatever way the bytes of a stream are cut into fragments (also inside a
  multi-byte character, also all in one fragment), if their concatenation decodes to
  N well-formed frames \<^verbatim>\<open>data:<json>\n\n\<close> followed by an unterminated rest, then
  \<^verbatim>\<open>analyzeStream\<close> calls the callback exactly N times, in the order of the frames, each
  time with the parse of that frame's payload, and resolves; the unterminated rest is
  dropped without an event.
\<close>

theorem frames_reassembled:
  assumes "snd (decode new_TextDecoder (concat fragments)) = concat (map frame payloads) @ tail"
    and "list_all2 (\<lambda>p ev. payload_ok p \<and> parse p = Inr ev) payloads events"
    and "indexOf_nn tail = None"
  shows "analyzeStream parse cb (Response True code (Some (map Value fragments))) st =
           (foldl (\<lambda>s ev. cb ev s) st events, None)"
  using analyzeStream_frames[OF assms(1,2), of cb code "[]" st]
  by (simp add: drain_None[OF assms(3)])

theorem frames_reassembled_witness:
  "analyzeStream Inr record_event
     (Response True 200 (Some (map Value
        [[0x64, 0x61, 0x74, 0x61, 0x3A, 0x7B, 0x22, 0x73, 0x22, 0x3A, 0x22, 0xC3],
         [0xBC, 0x22, 0x7D, 0x0A],
         [0x0A, 0x64, 0x61, 0x74, 0x61, 0x3A, 0x37, 0x0A, 0x0A, 0x64, 0x61, 0x74]]))) []
   = ([[0x7B, 0x22, 0x73, 0x22, 0x3A, 0x22, 0xFC, 0x22, 0x7D], [0x37]], None)"
proof -
  have "analyzeStream Inr record_event
     (Response True 200 (Some (map Value
        [[0x64, 0x61, 0x74, 0x61, 0x3A, 0x7B, 0x22, 0x73, 0x22, 0x3A, 0x22, 0xC3],
         [0xBC, 0x22, 0x7D, 0x0A],
         [0x0A, 0x64, 0x61, 0x74, 0x61, 0x3A, 0x37, 0x0A, 0x0A, 0x64, 0x61, 0x74]]))) []
   = (foldl (\<lambda>s ev. record_event ev s) []
        [[0x7B, 0x22, 0x73, 0x22, 0x3A, 0x22, 0xFC, 0x22, 0x7D], [0x37]], None)"
    by (rule frames_reassembled[where payloads = "[[0x7B, 0x22, 0x73, 0x22, 0x3A, 0x22, 0xFC, 0x22, 0x7D], [0x37]]"
          and tail = "[0x64, 0x61, 0x74]"])
       (simp_all add: eval_defs)
  then show ?thesis by (simp add: record_event_def)
qed


text \<open>
  C10: When the next complete frame in the buffer starts with \<^verbatim>\<open>data:\<close> and nothing but
  white space follows the prefix, the decoder neither calls the callback nor throws:
  it goes on with the text after the delimiter exactly as if the frame had not been
  there.
\<close>

theorem empty_payload_discarded:
  assumes "indexOf_nn buffer = Some pos"
    and "startsWith (trim (take pos buffer)) data_prefix"
    and "trim (replace_data (trim (take pos buffer))) = []"
  shows "drain parse cb buffer st = drain parse cb (drop (pos + 2) buffer) st"
  using assms by (simp add: drain_unfold)

theorem empty_payload_discarded_witness:
  "drain Inr record_event (ascii ''data:  '' @ [LF, LF] @ frame [0x37]) []
     = drain Inr record_event (frame [0x37]) []"
  using empty_payload_discarded[of "ascii ''data:  '' @ [LF, LF] @ frame [0x37]" 7 Inr record_event "[]"]
  by (simp add: eval_defs ascii_def trim_def startsWith_def replace_data_def)


text \<open>
  C5 (as the code has it): when the next complete frame starts with \<^verbatim>\<open>data:\<close> and its
  payload, trimmed, is not empty and is rejected by \<^verbatim>\<open>JSON.parse\<close>, then \<^verbatim>\<open>analyzeStream\<close>
  rejects with the parse error right after the events of the frames before it: no
  later frame and no later read is looked at. Unless its request has been aborted, the
  component reports the error's message with status \<^verbatim>\<open>ERROR\<close> and stops running.
\<close>

theorem malformed_payload_rejects:
  assumes "snd (decode new_TextDecoder (concat fragments)) = concat (map frame payloads) @ remainder"
    and "list_all2 (\<lambda>p ev. payload_ok p \<and> parse p = Inr ev) payloads events"
    and "indexOf_nn remainder = Some pos"
    and "startsWith (trim (take pos remainder)) data_prefix"
    and "trim (replace_data (trim (take pos remainder))) \<noteq> []"
    and "parse (trim (replace_data (trim (take pos remainder)))) = Inl e"
    and "\<not> aborted s i"
  shows "analyzeStream parse onEvent (Response True code (Some (map Value fragments @ later))) s
           = (foldl (\<lambda>s ev. onEvent ev s) s events, Some e)
    \<and> run_request parse (Response True code (Some (map Value fragments @ later))) i s
           = (showStatus ERROR (message e) (foldl (\<lambda>s ev. onEvent ev s) s events))\<lparr>running := False\<rparr>"
proof -
  have "drain parse onEvent remainder (foldl (\<lambda>s ev. onEvent ev s) s events)
      = (foldl (\<lambda>s ev. onEvent ev s) s events, Inl e)"
    using assms(4,5,6) by (simp add: drain_unfold[OF assms(3)])
  then have a: "analyzeStream parse onEvent (Response True code (Some (map Value fragments @ later))) s
           = (foldl (\<lambda>s ev. onEvent ev s) s events, Some e)"
    using analyzeStream_frames[OF assms(1,2), of onEvent code later s] by simp
  then show ?thesis
    using assms(7) by (simp add: run_request_def catch_handler_def)
qed

text \<open>
  C5 (as claimed) fails for the empty payload: the empty text is not valid JSON, yet
  the frame \<^verbatim>\<open>data:\n\n\<close> makes the decoder neither throw nor call the callback.
\<close>

theorem empty_payload_not_loud_counterexample:
  "parse_table [] = Inl syntax_error
   \<and> analyzeStream parse_table record_event
        (Response True 200 (Some [Value (bytes (frame []))])) [] = ([], None)"
proof -
  have d: "snd (decode new_TextDecoder (concat [bytes (frame [])])) = concat (map frame []) @ frame []"
    using decode_ascii[OF json_ascii(4)] by simp
  have i: "indexOf_nn (frame []) = Some 5"
    by (simp add: frame_def data_prefix_def LF_def)
  have "drain parse_table record_event (frame []) [] = ([], Inr [])"
    by (simp add: drain_unfold[OF i])
       (simp add: frame_def data_prefix_def LF_def trim_def is_ws_def startsWith_def replace_data_def
          drain_None)
  then show ?thesis
    using analyzeStream_frames[OF d, of parse_table "[]" record_event 200 "[]" "[]"]
    by (simp add: parse_table_values)
qed

theorem malformed_payload_rejects_witness:
  "run_request parse_table
     (Response True 200
        (Some (map Value [bytes (frame json_progress @ frame json_garbage)]
               @ [Value (bytes (frame json_result))]))) 0 (fst (handleAnalyze App_init))
   = (showStatus ERROR (message syntax_error)
        (onEvent (no_fields\<lparr>ev_progress := Some (1 / 4)\<rparr>) (fst (handleAnalyze App_init))))
       \<lparr>running := False\<rparr>"
proof -
  have "\<forall>c \<in> set (frame json_progress @ frame json_garbage). c < 128"
    using json_ascii by auto
  then have d: "snd (decode new_TextDecoder (concat [bytes (frame json_progress @ frame json_garbage)]))
      = concat (map frame [json_progress]) @ frame json_garbage"
    using decode_ascii[of "frame json_progress @ frame json_garbage"] by simp
  have l: "list_all2 (\<lambda>p ev. payload_ok p \<and> parse_table p = Inr ev) [json_progress]
      [no_fields\<lparr>ev_progress := Some (1 / 4)\<rparr>]"
    by (simp add: json_payload_ok parse_table_values)
  have i: "indexOf_nn (frame json_garbage) = Some 17"
    by (simp add: frame_def json_garbage_def ascii_def data_prefix_def LF_def)
  have tk: "trim (take 17 (frame json_garbage)) = data_prefix @ json_garbage"
    by (simp add: frame_def json_garbage_def ascii_def data_prefix_def trim_def is_ws_def)
  have sw: "startsWith (trim (take 17 (frame json_garbage))) data_prefix"
    unfolding tk by (simp add: startsWith_def)
  have rp: "trim (replace_data (trim (take 17 (frame json_garbage)))) = json_garbage"
    unfolding tk by (simp add: replace_data_def startsWith_def)
      (simp add: json_garbage_def ascii_def trim_def is_ws_def)
  have ne: "trim (replace_data (trim (take 17 (frame json_garbage)))) \<noteq> []"
    unfolding rp by (simp add: json_garbage_def ascii_def)
  have pe: "parse_table (trim (replace_data (trim (take 17 (frame json_garbage))))) = Inl syntax_error"
    unfolding rp by (rule parse_table_values)
  have na: "\<not> aborted (fst (handleAnalyze App_init)) 0"
    using handleAnalyze_started[OF started] by (simp add: aborted_def)
  show ?thesis
    using malformed_payload_rejects[OF d l i sw ne pe na, of 200 "[Value (bytes (frame json_result))]"]
    by simp
qed


section \<open>Applying events\<close>

text \<open>
  C1 (as the code has it): an event that carries both a non-empty \<^verbatim>\<open>error\<close> and a
  \<^verbatim>\<open>result\<close> runs the error branch and then the result branch of the callback. The
  component ends not running, with the result stored, progress 1 and the status
  \<^verbatim>\<open>OK\<close> / \<^verbatim>\<open>FERTIG\<close>: the status written by the error branch is overwritten.
\<close>

theorem both_fields_result_last:
  assumes "ev_error event = Some e" "e \<noteq> []" "ev_result event = Some r"
  shows "onEvent event s = s\<lparr>result := Some r, running := False, progress := 1, status := (OK, msg_done)\<rparr>"
  using assms by (simp add: onEvent_def showStatus_def Let_def split: option.splits)

text \<open>
  C1 (as claimed) fails: after a valid start, the event
  \<^verbatim>\<open>{error: "x", result: {...}}\<close> leaves the status at \<^verbatim>\<open>OK\<close> with the result stored,
  not at \<^verbatim>\<open>ERROR\<close>.
\<close>

theorem error_precedence_counterexample:
  "status (onEvent (no_fields\<lparr>ev_error := Some (ascii ''x''), ev_result := Some empty_result\<rparr>)
      (fst (handleAnalyze App_init))) = (OK, msg_done)
   \<and> result (onEvent (no_fields\<lparr>ev_error := Some (ascii ''x''), ev_result := Some empty_result\<rparr>)
      (fst (handleAnalyze App_init))) = Some empty_result"
  by (simp add: onEvent_def showStatus_def no_fields_def Let_def ascii_def)

theorem both_fields_result_last_witness:
  "onEvent (no_fields\<lparr>ev_error := Some (ascii ''x''), ev_result := Some empty_result\<rparr>) App_init
     = App_init\<lparr>result := Some empty_result, running := False, progress := 1, status := (OK, msg_done)\<rparr>"
  using both_fields_result_last[of "no_fields\<lparr>ev_error := Some (ascii ''x''), ev_result := Some empty_result\<rparr>"
      "ascii ''x''" empty_result App_init]
  by (simp add: no_fields_def ascii_def)

text \<open>
  C6 (as the code has it): an event that carries \<^verbatim>\<open>progress\<close> and no \<^verbatim>\<open>result\<close> stores
  exactly that value as the progress, whatever the value and whatever was stored
  before: nothing is clamped and nothing is compared with the previous value.
\<close>

theorem progress_stored_unclamped:
  assumes "ev_progress event = Some p" "ev_result event = None"
  shows "progress (onEvent event s) = p"
  using assms by (simp add: onEvent_def showStatus_def Let_def split: option.splits)

text \<open>
  C6 (as claimed) fails: a progress of 1.7 is stored as 1.7, not as its clamped
  value 1.
\<close>

theorem progress_clamp_counterexample:
  "progress (onEvent (no_fields\<lparr>ev_progress := Some (17 / 10)\<rparr>) (fst (handleAnalyze App_init)))
     \<noteq> clamp01 (17 / 10)"
  by (simp add: onEvent_def no_fields_def Let_def clamp01_def)

theorem progress_stored_unclamped_witness:
  "progress (onEvent (no_fields\<lparr>ev_progress := Some (17 / 10)\<rparr>) (fst (handleAnalyze App_init))) = 17 / 10
   \<and> progress (onEvent (no_fields\<lparr>ev_progress := Some (- 1 / 2)\<rparr>) (fst (handleAnalyze App_init))) = - 1 / 2"
  using progress_stored_unclamped[of "no_fields\<lparr>ev_progress := Some (17 / 10)\<rparr>" "17 / 10" "fst (handleAnalyze App_init)"]
    progress_stored_unclamped[of "no_fields\<lparr>ev_progress := Some (- 1 / 2)\<rparr>" "- 1 / 2" "fst (handleAnalyze App_init)"]
  by (simp add: no_fields_def)






section \<open>Supersession and cancellation\<close>

text \<open>
  C2: two valid starts in a row, the second while the first request is in flight. The
  second start aborts the first controller, so the pending read of the first stream is
  rejected and its \<^verbatim>\<open>.catch\<close> handler runs after the second start. The handler has no
  check that its request is still the current one: it sets \<^verbatim>\<open>running\<close> to false and
  the status to \<^verbatim>\<open>WARN\<close> / \<^verbatim>\<open>Analyse abgebrochen\<close> while the second request, whose signal is
  not aborted, is still in flight.
\<close>

theorem superseded_catch_clears_running:
  "running (fst (handleAnalyze (fst (handleAnalyze App_init))))
   \<and> controllerRef (fst (handleAnalyze (fst (handleAnalyze App_init)))) = Some 1
   \<and> \<not> aborted (fst (handleAnalyze (fst (handleAnalyze App_init)))) 1
   \<and> aborted (fst (handleAnalyze (fst (handleAnalyze App_init)))) 0
   \<and> \<not> running (catch_handler 0 abort_error (fst (handleAnalyze (fst (handleAnalyze App_init)))))
   \<and> status (catch_handler 0 abort_error (fst (handleAnalyze (fst (handleAnalyze App_init)))))
       = (WARN, msg_cancelled)"
  by (simp add: handleAnalyze_def App_init_def ascii_def trim_def is_ws_def abort_current_def
      showStatus_def Let_def catch_handler_def aborted_def)

text \<open>
  C9: after a valid start, while the user cancels or the stream delivers events in any
  order, a rejection of the request's promise is reported as cancelled
  (\<^verbatim>\<open>WARN\<close> / \<^verbatim>\<open>Analyse abgebrochen\<close>) if and only if a cancel came before it, and as failed
  with the error's message (\<^verbatim>\<open>ERROR\<close>) otherwise; in both cases the component stops
  running.
\<close>

theorem cancel_vs_fail:
  assumes "handleAnalyze s0 = (s1, Some i)"
  shows "status (catch_handler i err (foldl apply_action s1 acts)) =
           (if Cancel \<in> set acts then (WARN, msg_cancelled) else (ERROR, message err))
         \<and> \<not> running (catch_handler i err (foldl apply_action s1 acts))"
  using handleAnalyze_started[OF assms] foldl_apply_action[of s1 i acts]
  by (simp add: catch_handler_def aborted_def showStatus_def)

theorem cancel_vs_fail_witness:
  "status (catch_handler 0 abort_error
      (foldl apply_action (fst (handleAnalyze App_init))
         [Deliver (no_fields\<lparr>ev_progress := Some (1 / 4)\<rparr>), Cancel])) = (WARN, msg_cancelled)
   \<and> status (catch_handler 0 (Error (ascii ''network error''))
      (foldl apply_action (fst (handleAnalyze App_init))
         [Deliver (no_fields\<lparr>ev_progress := Some (1 / 4)\<rparr>)])) = (ERROR, ascii ''network error'')"
proof -
  have start: "handleAnalyze App_init = (fst (handleAnalyze App_init), Some 0)"
    by (simp add: handleAnalyze_def App_init_def ascii_def trim_def is_ws_def abort_current_def Let_def)
  show ?thesis
    using cancel_vs_fail[OF start, of abort_error "[Deliver (no_fields\<lparr>ev_progress := Some (1 / 4)\<rparr>), Cancel]"]
      cancel_vs_fail[OF start, of "Error (ascii ''network error'')" "[Deliver (no_fields\<lparr>ev_progress := Some (1 / 4)\<rparr>)]"]
    by simp
qed


section \<open>Rendering policy\<close>



text \<open>
  C8: the chart has a tooltip exactly when tooltips are wanted and the number of
  points is at most the threshold.
\<close>

theorem showTooltips_iff:
  "(tooltip_option tooltipEnabled pts tooltipThreshold \<noteq> None)
     = tooltipsEnabled tooltipEnabled (length pts) tooltipThreshold
   \<and> showTooltips tooltipEnabled pts tooltipThreshold
     = tooltipsEnabled tooltipEnabled (length pts) tooltipThreshold"
  by (simp add: tooltip_option_def showTooltips_def tooltipsEnabled_def)

theorem showTooltips_boundary:
  "tooltip_option True (replicate 300 (0::nat)) 300 = Some trigger_item
   \<and> tooltip_option True (replicate 301 (0::nat)) 300 = None"
  using showTooltips_iff[of True "replicate 300 (0::nat)" 300] showTooltips_iff[of True "replicate 301 (0::nat)" 300]
  by (auto simp add: tooltipsEnabled_def tooltip_option_def)

end
